theory Spec2Isabelle
  imports Main "HOL-Library.Word"
begin

unbundle bit_operations_syntax

section \<open>Data model\<close>

text \<open>
  A \<^verbatim>\<open>[]byte\<close> is a list of 8-bit words. A \<^verbatim>\<open>time.Time\<close> is an integer count of
  nanoseconds on the clock that \<^verbatim>\<open>time.Now\<close> reads; the zero \<^verbatim>\<open>Time\<close> is 0. A
  \<^verbatim>\<open>time.Duration\<close> is an integer count of nanoseconds.
\<close>

type_synonym byte = "8 word"

type_synonym time = int

type_synonym Duration = int

definition Hour :: Duration where
  "Hour = 3600 * 1000000000"

definition time_Add :: "time \<Rightarrow> Duration \<Rightarrow> time" where
  "time_Add t d = t + d"

definition time_After :: "time \<Rightarrow> time \<Rightarrow> bool" where
  "time_After t u = (u < t)"

record Object =
  Etag :: string
  ContentType :: string
  Content :: "byte list"
  UpdateTime :: time
  ExpiryTime :: time

text \<open>The zero value \<^verbatim>\<open>Object{}\<close>.\<close>

definition zero_Object :: Object where
  "zero_Object = \<lparr>Etag = [], ContentType = [], Content = [], UpdateTime = 0, ExpiryTime = 0\<rparr>"

section \<open>Cache\<close>

text \<open>
  \<^verbatim>\<open>type Cache map[string]map[string]Object\<close>, a map made by \<^verbatim>\<open>make\<close>. \<^verbatim>\<open>Put\<close> updates
  the map in place; here it returns the updated map.
\<close>

type_synonym Cache = "string \<rightharpoonup> (string \<rightharpoonup> Object)"

definition Cache_Get :: "Cache \<Rightarrow> string \<Rightarrow> string \<Rightarrow> Object \<times> bool" where
  "Cache_Get c hostName pageName =
     (case c hostName of
        None \<Rightarrow> (zero_Object, False)
      | Some host \<Rightarrow>
          (case host pageName of
             None \<Rightarrow> (zero_Object, False)
           | Some obj \<Rightarrow> (obj, True)))"

definition Cache_Put :: "Cache \<Rightarrow> string \<Rightarrow> string \<Rightarrow> Object \<Rightarrow> Cache" where
  "Cache_Put c hostName pageName obj =
     (case c hostName of
        None \<Rightarrow> c(hostName \<mapsto> Map.empty(pageName \<mapsto> obj))
      | Some host \<Rightarrow> c(hostName \<mapsto> host(pageName \<mapsto> obj)))"

section \<open>The content digest\<close>

text \<open>
  \<^verbatim>\<open>md5.New\<close>, \<^verbatim>\<open>Write\<close> and \<^verbatim>\<open>Sum\<close> of \<^verbatim>\<open>crypto/md5\<close> compute the MD5 digest of RFC 1321, and
  \<^verbatim>\<open>hex.EncodeToString\<close> writes it in lower-case hexadecimal.
\<close>

type_synonym md5_state = "32 word \<times> 32 word \<times> 32 word \<times> 32 word"

definition RotateLeft32 :: "32 word \<Rightarrow> nat \<Rightarrow> 32 word" where
  "RotateLeft32 x k = (let s = k mod 32 in push_bit s x OR drop_bit (32 - s) x)"

definition md5_F :: "32 word \<Rightarrow> 32 word \<Rightarrow> 32 word \<Rightarrow> 32 word" where
  "md5_F b c d = (b AND c) OR (NOT b AND d)"

definition md5_G :: "32 word \<Rightarrow> 32 word \<Rightarrow> 32 word \<Rightarrow> 32 word" where
  "md5_G b c d = (d AND b) OR (NOT d AND c)"

definition md5_H :: "32 word \<Rightarrow> 32 word \<Rightarrow> 32 word \<Rightarrow> 32 word" where
  "md5_H b c d = b XOR c XOR d"

definition md5_I :: "32 word \<Rightarrow> 32 word \<Rightarrow> 32 word \<Rightarrow> 32 word" where
  "md5_I b c d = c XOR (b OR NOT d)"

text \<open>One row per step: the index of the message word, the additive constant and
  the rotation.\<close>

definition md5_round1 :: "(nat \<times> 32 word \<times> nat) list" where
  "md5_round1 = [
    (0, 0xd76aa478, 7), (1, 0xe8c7b756, 12), (2, 0x242070db, 17), (3, 0xc1bdceee, 22),
    (4, 0xf57c0faf, 7), (5, 0x4787c62a, 12), (6, 0xa8304613, 17), (7, 0xfd469501, 22),
    (8, 0x698098d8, 7), (9, 0x8b44f7af, 12), (10, 0xffff5bb1, 17), (11, 0x895cd7be, 22),
    (12, 0x6b901122, 7), (13, 0xfd987193, 12), (14, 0xa679438e, 17), (15, 0x49b40821, 22)]"

definition md5_round2 :: "(nat \<times> 32 word \<times> nat) list" where
  "md5_round2 = [
    (1, 0xf61e2562, 5), (6, 0xc040b340, 9), (11, 0x265e5a51, 14), (0, 0xe9b6c7aa, 20),
    (5, 0xd62f105d, 5), (10, 0x02441453, 9), (15, 0xd8a1e681, 14), (4, 0xe7d3fbc8, 20),
    (9, 0x21e1cde6, 5), (14, 0xc33707d6, 9), (3, 0xf4d50d87, 14), (8, 0x455a14ed, 20),
    (13, 0xa9e3e905, 5), (2, 0xfcefa3f8, 9), (7, 0x676f02d9, 14), (12, 0x8d2a4c8a, 20)]"

definition md5_round3 :: "(nat \<times> 32 word \<times> nat) list" where
  "md5_round3 = [
    (5, 0xfffa3942, 4), (8, 0x8771f681, 11), (11, 0x6d9d6122, 16), (14, 0xfde5380c, 23),
    (1, 0xa4beea44, 4), (4, 0x4bdecfa9, 11), (7, 0xf6bb4b60, 16), (10, 0xbebfbc70, 23),
    (13, 0x289b7ec6, 4), (0, 0xeaa127fa, 11), (3, 0xd4ef3085, 16), (6, 0x04881d05, 23),
    (9, 0xd9d4d039, 4), (12, 0xe6db99e5, 11), (15, 0x1fa27cf8, 16), (2, 0xc4ac5665, 23)]"

definition md5_round4 :: "(nat \<times> 32 word \<times> nat) list" where
  "md5_round4 = [
    (0, 0xf4292244, 6), (7, 0x432aff97, 10), (14, 0xab9423a7, 15), (5, 0xfc93a039, 21),
    (12, 0x655b59c3, 6), (3, 0x8f0ccc92, 10), (10, 0xffeff47d, 15), (1, 0x85845dd1, 21),
    (8, 0x6fa87e4f, 6), (15, 0xfe2ce6e0, 10), (6, 0xa3014314, 15), (13, 0x4e0811a1, 21),
    (4, 0xf7537e82, 6), (11, 0xbd3af235, 10), (2, 0x2ad7d2bb, 15), (9, 0xeb86d391, 21)]"

definition md5_step ::
  "(32 word \<Rightarrow> 32 word \<Rightarrow> 32 word \<Rightarrow> 32 word) \<Rightarrow> 32 word list \<Rightarrow> md5_state
     \<Rightarrow> nat \<times> 32 word \<times> nat \<Rightarrow> md5_state" where
  "md5_step f x st row =
     (case st of (a, b, c, d) \<Rightarrow>
        case row of (g, k, s) \<Rightarrow>
          (d, b + RotateLeft32 (f b c d + a + x ! g + k) s, b, c))"

fun le_word32 :: "byte list \<Rightarrow> 32 word" where
  "le_word32 [] = 0"
| "le_word32 (v # vs) = ucast v OR push_bit 8 (le_word32 vs)"

fun md5_words :: "byte list \<Rightarrow> 32 word list" where
  "md5_words (b0 # b1 # b2 # b3 # bs) = le_word32 [b0, b1, b2, b3] # md5_words bs"
| "md5_words bs = []"

definition md5_block :: "md5_state \<Rightarrow> byte list \<Rightarrow> md5_state" where
  "md5_block st chunk =
     (let x = md5_words chunk;
          st1 = foldl (md5_step md5_F x) st md5_round1;
          st2 = foldl (md5_step md5_G x) st1 md5_round2;
          st3 = foldl (md5_step md5_H x) st2 md5_round3;
          st4 = foldl (md5_step md5_I x) st3 md5_round4
      in case st of (a0, b0, c0, d0) \<Rightarrow>
           case st4 of (a, b, c, d) \<Rightarrow> (a0 + a, b0 + b, c0 + c, d0 + d))"

fun md5_blocks :: "nat \<Rightarrow> md5_state \<Rightarrow> byte list \<Rightarrow> md5_state" where
  "md5_blocks 0 st bs = st"
| "md5_blocks (Suc n) st bs = md5_blocks n (md5_block st (take 64 bs)) (drop 64 bs)"

definition PutUint32 :: "32 word \<Rightarrow> byte list" where
  "PutUint32 v = [ucast v, ucast (drop_bit 8 v), ucast (drop_bit 16 v), ucast (drop_bit 24 v)]"

definition PutUint64 :: "64 word \<Rightarrow> byte list" where
  "PutUint64 v =
     [ucast v, ucast (drop_bit 8 v), ucast (drop_bit 16 v), ucast (drop_bit 24 v),
      ucast (drop_bit 32 v), ucast (drop_bit 40 v), ucast (drop_bit 48 v), ucast (drop_bit 56 v)]"

definition md5_pad :: "byte list \<Rightarrow> byte list" where
  "md5_pad msg =
     msg @ [0x80] @ replicate ((119 - length msg mod 64) mod 64) 0
         @ PutUint64 (push_bit 3 (of_nat (length msg)))"

definition md5_init :: md5_state where
  "md5_init = (0x67452301, 0xefcdab89, 0x98badcfe, 0x10325476)"

definition md5_Sum :: "byte list \<Rightarrow> byte list" where
  "md5_Sum msg =
     (let p = md5_pad msg in
      case md5_blocks (length p div 64) md5_init p of
        (a, b, c, d) \<Rightarrow> PutUint32 a @ PutUint32 b @ PutUint32 c @ PutUint32 d)"

definition hextable :: string where
  "hextable = ''0123456789abcdef''"

definition hex_EncodeToString :: "byte list \<Rightarrow> string" where
  "hex_EncodeToString src =
     concat (map (\<lambda>v. [hextable ! unat (drop_bit 4 v), hextable ! unat (v AND 0x0f)]) src)"

section \<open>The environment\<close>

text \<open>
  What \<^verbatim>\<open>Storage.Get\<close> reads from outside the process: the clock and the origin
  servers. The \<open>k\<close>-th call of \<^verbatim>\<open>time.Now\<close> returns \<open>clock w k\<close>; \<open>ticks\<close> counts the
  calls made so far. The \<open>k\<close>-th call of \<^verbatim>\<open>http.Get\<close> with URL \<open>u\<close> returns
  \<open>remote w k u\<close>; \<open>requests\<close> lists the URLs requested so far. \<^verbatim>\<open>http.Get\<close> returns an
  error when it obtains no response (a transport failure, a URL it cannot request); a
  response is returned as a response whatever its status code. Log output is not
  modelled.
\<close>

datatype read_result = ReadOK "byte list" | ReadFailed

record Response =
  StatusCode :: nat
  Header :: "string \<rightharpoonup> string list"
  Body :: read_result

datatype get_result = GetFailed | GetOK Response

record world =
  clock :: "nat \<Rightarrow> time"
  ticks :: nat
  remote :: "nat \<Rightarrow> string \<Rightarrow> get_result"
  requests :: "string list"

definition time_Now :: "world \<Rightarrow> time \<times> world" where
  "time_Now w = (clock w (ticks w), w\<lparr>ticks := Suc (ticks w)\<rparr>)"

definition http_Get :: "world \<Rightarrow> string \<Rightarrow> get_result \<times> world" where
  "http_Get w url = (remote w (length (requests w)) url, w\<lparr>requests := requests w @ [url]\<rparr>)"

definition io_ReadAll :: "Response \<Rightarrow> read_result" where
  "io_ReadAll resp = Body resp"

text \<open>\<^verbatim>\<open>Header.Get\<close>: the first value of the key, the empty string when there is none.\<close>

definition Header_Get :: "(string \<rightharpoonup> string list) \<Rightarrow> string \<Rightarrow> string" where
  "Header_Get h key = (case h key of None \<Rightarrow> [] | Some [] \<Rightarrow> [] | Some (v # vs) \<Rightarrow> v)"

section \<open>Storage\<close>

record Storage =
  allowed :: "string set"
  cache :: Cache

definition NewStorage :: Storage where
  "NewStorage = \<lparr>allowed = {''https://paulgraham.com''}, cache = Map.empty\<rparr>"

text \<open>The errors of \<^verbatim>\<open>Storage.Get\<close>, one per \<^verbatim>\<open>fmt.Errorf\<close> of the source.\<close>

datatype error =
  HostNameEmpty | PageNameEmpty | HostNotAllowed | FailedToGetObject | FailedToReadObject

fun Error :: "error \<Rightarrow> string" where
  "Error HostNameEmpty = ''host name is empty''"
| "Error PageNameEmpty = ''page name is empty''"
| "Error HostNotAllowed = ''host not allowed''"
| "Error FailedToGetObject = ''failed to get object''"
| "Error FailedToReadObject = ''failed to read object''"

text \<open>The error kinds of the specification, section 7.\<close>

datatype error_kind = InvalidInput | OriginNotAllowed | FetchFailed

fun kind :: "error \<Rightarrow> error_kind" where
  "kind HostNameEmpty = InvalidInput"
| "kind PageNameEmpty = InvalidInput"
| "kind HostNotAllowed = OriginNotAllowed"
| "kind FailedToGetObject = FetchFailed"
| "kind FailedToReadObject = FetchFailed"

text \<open>
  \<^verbatim>\<open>Storage.Get\<close>. The storage and the environment are passed in and returned. The
  clock is read for the freshness test only when the cache has the entry (\<^verbatim>\<open>&&\<close>
  evaluates its right operand only then), and twice more when the object is built:
  once for \<^verbatim>\<open>UpdateTime\<close> and once for \<^verbatim>\<open>ExpiryTime\<close>.
\<close>

definition Storage_Get ::
  "world \<Rightarrow> Storage \<Rightarrow> string \<Rightarrow> string \<Rightarrow> (error + Object) \<times> Storage \<times> world" where
  "Storage_Get w s hostName pageName =
     (if hostName = [] then (Inl HostNameEmpty, s, w)
      else if pageName = [] then (Inl PageNameEmpty, s, w)
      else if hostName \<notin> allowed s then (Inl HostNotAllowed, s, w)
      else
        let (obj, ok) = Cache_Get (cache s) hostName pageName;
            (hit, w1) = (if ok then (let (now, w') = time_Now w
                                     in (time_After (ExpiryTime obj) now, w'))
                         else (False, w))
        in if hit then (Inr obj, s, w1)
           else
             let url = hostName @ ''/'' @ pageName;
                 (res, w2) = http_Get w1 url
             in case res of
                  GetFailed \<Rightarrow> (Inl FailedToGetObject, s, w2)
                | GetOK resp \<Rightarrow>
                    (case io_ReadAll resp of
                       ReadFailed \<Rightarrow> (Inl FailedToReadObject, s, w2)
                     | ReadOK content \<Rightarrow>
                         let attrs = Header resp;
                             etag = hex_EncodeToString (md5_Sum content);
                             contentType = Header_Get attrs ''Content-Type'';
                             (updateTime, w3) = time_Now w2;
                             (now2, w4) = time_Now w3;
                             obj' = \<lparr>Etag = etag, ContentType = contentType, Content = content,
                                     UpdateTime = updateTime,
                                     ExpiryTime = time_Add now2 (24 * Hour)\<rparr>
                         in (Inr obj', s\<lparr>cache := Cache_Put (cache s) hostName pageName obj'\<rparr>,
                             w4)))"

section \<open>The HTTP handler\<close>

definition strings_HasPrefix :: "string \<Rightarrow> string \<Rightarrow> bool" where
  "strings_HasPrefix s pre = (length pre \<le> length s \<and> take (length pre) s = pre)"

definition strings_TrimPrefix :: "string \<Rightarrow> string \<Rightarrow> string" where
  "strings_TrimPrefix s pre = (if strings_HasPrefix s pre then drop (length pre) s else s)"

text \<open>\<^verbatim>\<open>strings.TrimRight\<close>, for a cutset of one-byte characters.\<close>

definition strings_TrimRight :: "string \<Rightarrow> string \<Rightarrow> string" where
  "strings_TrimRight s cutset = rev (dropWhile (\<lambda>c. c \<in> set cutset) (rev s))"

text \<open>\<^verbatim>\<open>strings.Index\<close>: the index of the first instance of \<open>sep\<close>, \<open>None\<close> for -1.\<close>

fun strings_Index :: "string \<Rightarrow> string \<Rightarrow> nat option" where
  "strings_Index [] sep = (if sep = [] then Some 0 else None)"
| "strings_Index (c # cs) sep =
     (if strings_HasPrefix (c # cs) sep then Some 0
      else map_option Suc (strings_Index cs sep))"

text \<open>\<^verbatim>\<open>strings.SplitN\<close>, for a non-empty separator and a count \<open>n \<ge> 0\<close>.\<close>

fun strings_SplitN :: "string \<Rightarrow> string \<Rightarrow> nat \<Rightarrow> string list" where
  "strings_SplitN s sep 0 = []"
| "strings_SplitN s sep (Suc 0) = [s]"
| "strings_SplitN s sep (Suc (Suc n)) =
     (case strings_Index s sep of
        None \<Rightarrow> [s]
      | Some m \<Rightarrow> take m s # strings_SplitN (drop (m + length sep) s) sep (Suc n))"

text \<open>
  The handler of \<^verbatim>\<open>GET /\<close>, in three parts: the scheme test, the split into host name
  and page name (\<open>None\<close> where the handler answers \<^verbatim>\<open>http.NotFound\<close>), and the call of
  \<^verbatim>\<open>Storage.Get\<close> with the response. The argument \<open>url\<close> is the value of the query
  parameter \<^verbatim>\<open>url\<close>. \<^verbatim>\<open>http.ServeContent\<close> is kept as a constructor with the headers
  set before it and its arguments.
\<close>

definition strip_scheme :: "string \<Rightarrow> string \<times> string" where
  "strip_scheme url =
     (if strings_HasPrefix url ''https://'' then (''https://'', strings_TrimPrefix url ''https://'')
      else if strings_HasPrefix url ''http://'' then (''http://'', strings_TrimPrefix url ''http://'')
      else (''httpd://'', url))"

definition parse_url :: "string \<Rightarrow> (string \<times> string) option" where
  "parse_url url0 =
     (let (prefix, url) = strip_scheme url0;
          pathSegments = strings_SplitN (strings_TrimRight url ''/'') ''/'' 2
      in if length pathSegments \<noteq> 2 then None
         else Some (prefix @ pathSegments ! 0, pathSegments ! 1))"

datatype response =
  NotFound
| ServeContent "(string \<times> string) list" string time "byte list"

definition handler :: "world \<Rightarrow> Storage \<Rightarrow> string \<Rightarrow> response \<times> Storage \<times> world" where
  "handler w s url =
     (case parse_url url of
        None \<Rightarrow> (NotFound, s, w)
      | Some (hostName, pageName) \<Rightarrow>
          (case Storage_Get w s hostName pageName of
             (Inl err, s', w') \<Rightarrow> (NotFound, s', w')
           | (Inr obj, s', w') \<Rightarrow>
               (ServeContent
                  [(''Content-Type'', ContentType obj), (''ETag'', Etag obj),
                   (''Access-Control-Allow-Origin'', ''*''),
                   (''Access-Control-Allow-Methods'', ''GET, OPTIONS'')]
                  pageName (UpdateTime obj) (Content obj), s', w')))"

text \<open>The states of the storage that calls of \<^verbatim>\<open>Storage.Get\<close> reach from \<^verbatim>\<open>NewStorage\<close>.\<close>

inductive reachable :: "world \<Rightarrow> Storage \<Rightarrow> bool" where
  reachable_init: "reachable w NewStorage"
| reachable_Get:
    "reachable w s \<Longrightarrow> Storage_Get w s hostName pageName = (r, s', w') \<Longrightarrow> reachable w' s'"

section \<open>Predicates and test data of the statements\<close>

text \<open>
  The cache has no fresh entry for the key: the call goes on to fetch. \<open>after_test\<close> is
  the environment after the freshness test of such a call.
\<close>

definition no_fresh_entry :: "world \<Rightarrow> Storage \<Rightarrow> string \<Rightarrow> string \<Rightarrow> bool" where
  "no_fresh_entry w s hostName pageName =
     (case Cache_Get (cache s) hostName pageName of
        (obj, ok) \<Rightarrow> \<not> (ok \<and> clock w (ticks w) < ExpiryTime obj))"

definition after_test :: "world \<Rightarrow> Storage \<Rightarrow> string \<Rightarrow> string \<Rightarrow> world" where
  "after_test w s hostName pageName =
     (if snd (Cache_Get (cache s) hostName pageName) then w\<lparr>ticks := Suc (ticks w)\<rparr> else w)"

text \<open>
  Test data: an origin response; an environment whose clock reads 0, 1, 2, ... and whose
  origin always answers the same; a cached object that expired at time 0 and a storage
  that holds it; the object that a fetch of the two bytes \<^verbatim>\<open>hi\<close> builds in that
  environment, and the storage after that fetch.
\<close>

definition test_response :: "nat \<Rightarrow> read_result \<Rightarrow> Response" where
  "test_response code body =
     \<lparr>StatusCode = code, Header = [''Content-Type'' \<mapsto> [''text/html'']], Body = body\<rparr>"

definition test_world :: "get_result \<Rightarrow> world" where
  "test_world r = \<lparr>clock = (\<lambda>k. int k), ticks = 0, remote = (\<lambda>k url. r), requests = []\<rparr>"

definition expired_Object :: Object where
  "expired_Object =
     \<lparr>Etag = ''d41d8cd98f00b204e9800998ecf8427e'', ContentType = ''text/html'', Content = [],
      UpdateTime = - 24 * Hour, ExpiryTime = 0\<rparr>"

definition stale_Storage :: Storage where
  "stale_Storage =
     NewStorage\<lparr>cache := Cache_Put Map.empty ''https://paulgraham.com'' ''index.html''
                             expired_Object\<rparr>"

definition hi_Object :: Object where
  "hi_Object =
     \<lparr>Etag = ''49f68a5c8493ec2c0bf489821c21fc3b'', ContentType = ''text/html'',
      Content = [0x68, 0x69], UpdateTime = 0, ExpiryTime = 1 + 24 * Hour\<rparr>"

definition ok_world :: world where
  "ok_world = test_world (GetOK (test_response 200 (ReadOK [0x68, 0x69])))"

definition hi_Storage :: Storage where
  "hi_Storage =
     NewStorage\<lparr>cache := Cache_Put Map.empty ''https://paulgraham.com'' ''index.html'' hi_Object\<rparr>"

text \<open>
  The object was built from two successive clock readings: \<^verbatim>\<open>UpdateTime\<close> is reading \<open>k\<close>
  and \<^verbatim>\<open>ExpiryTime\<close> is reading \<open>k + 1\<close> plus 24 hours.
\<close>

definition stamped :: "world \<Rightarrow> Object \<Rightarrow> bool" where
  "stamped w obj =
     (\<exists>k < ticks w. Suc k < ticks w \<and> UpdateTime obj = clock w k \<and>
                     ExpiryTime obj = time_Add (clock w (Suc k)) (24 * Hour))"

text \<open>
  The split as the specification words it: the remainder is split at the first \<open>/\<close> into
  host and remainder-path, and there is no result where it has no \<open>/\<close>; the origin is
  the scheme followed by the host.
\<close>

definition spec_split :: "string \<Rightarrow> (string \<times> string) option" where
  "spec_split r =
     (if CHR ''/'' \<in> set r
      then Some (takeWhile (\<lambda>c. c \<noteq> CHR ''/'') r, tl (dropWhile (\<lambda>c. c \<noteq> CHR ''/'') r))
      else None)"

definition spec_parse_url :: "string \<Rightarrow> (string \<times> string) option" where
  "spec_parse_url url =
     (case strip_scheme url of
        (scheme, r) \<Rightarrow> map_option (\<lambda>(host, path). (scheme @ host, path)) (spec_split r))"

section \<open>The digest of a test vector\<close>

text \<open>The MD5 digest of the two bytes \<^verbatim>\<open>hi\<close>, computed step by step.\<close>

lemma replicate_numeral: "replicate (numeral k) x = x # replicate (pred_numeral k) x"
  by (simp add: numeral_eq_Suc)

lemma md5_step_norm:
  "md5_step f x (a, b, c, d) (g, k, s) =
     (d, of_nat (unat (b + RotateLeft32 (of_nat (unat (f b c d + a + x ! g + k))) s)), b, c)"
  by (simp add: md5_step_def)

lemma hi_pad:
  "md5_words (md5_pad [0x68, 0x69]) =
     [0x806968, 0, 0, 0, 0, 0, 0, 0, 0, 0, 0, 0, 0, 0, 0x10, 0]"
  by (simp add: md5_pad_def PutUint64_def replicate_numeral)

lemma hi_round1:
  "foldl (md5_step md5_F [0x806968, 0, 0, 0, 0, 0, 0, 0, 0, 0, 0, 0, 0, 0, 0x10, 0])
     md5_init md5_round1 =
   (0xd0db5345, 0xd96cea0f, 0x44daf128, 0x26e9fa5e)"
  by (simp add: md5_init_def md5_step_norm RotateLeft32_def md5_round1_def md5_F_def)

lemma hi_round2:
  "foldl (md5_step md5_G [0x806968, 0, 0, 0, 0, 0, 0, 0, 0, 0, 0, 0, 0, 0, 0x10, 0])
     (0xd0db5345, 0xd96cea0f, 0x44daf128, 0x26e9fa5e) md5_round2 =
   (0x34b81932, 0x2e50ea0b, 0x3b8137b3, 0x980eaf0f)"
  by (simp add: md5_step_norm RotateLeft32_def md5_round2_def md5_G_def)

lemma hi_round3:
  "foldl (md5_step md5_H [0x806968, 0, 0, 0, 0, 0, 0, 0, 0, 0, 0, 0, 0, 0, 0x10, 0])
     (0x34b81932, 0x2e50ea0b, 0x3b8137b3, 0x980eaf0f) md5_round3 =
   (0xf3b635a4, 0xe769f41f, 0xa20b42d6, 0x3aa221ee)"
  by (simp add: md5_step_norm RotateLeft32_def md5_round3_def md5_H_def)

lemma hi_round4:
  "foldl (md5_step md5_I [0x806968, 0, 0, 0, 0, 0, 0, 0, 0, 0, 0, 0, 0, 0, 0x10, 0])
     (0xf3b635a4, 0xe769f41f, 0xa20b42d6, 0x3aa221ee) md5_round4 =
   (0xf545d348, 0x3d1ee7fb, 0xe9cf170d, 0x2bc9cca6)"
  by (simp add: md5_step_norm RotateLeft32_def md5_round4_def md5_I_def)

lemma hi_block:
  "md5_block md5_init (md5_pad [0x68, 0x69]) =
     (0x5c8af649, 0x2cec9384, 0x8289f40b, 0x3bfc211c)"
  by (simp add: md5_block_def hi_pad hi_round1 hi_round2 hi_round3 hi_round4) (simp add: md5_init_def)

lemma hi_len: "length (md5_pad [0x68, 0x69]) = 64"
  by (simp add: md5_pad_def PutUint64_def)

lemma hi_Sum:
  "md5_Sum [0x68, 0x69] =
     [0x49, 0xf6, 0x8a, 0x5c, 0x84, 0x93, 0xec, 0x2c,
      0x0b, 0xf4, 0x89, 0x82, 0x1c, 0x21, 0xfc, 0x3b]"
  by (simp add: md5_Sum_def hi_len hi_block PutUint32_def)

lemma hi_hex:
  "hex_EncodeToString (md5_Sum [0x68, 0x69]) = ''49f68a5c8493ec2c0bf489821c21fc3b''"
  by (simp add: hi_Sum hex_EncodeToString_def hextable_def)

section \<open>The paths of \<^verbatim>\<open>Storage.Get\<close>\<close>

lemma Storage_Get_invalid:
  "hostName = [] \<or> pageName = [] \<or> hostName \<notin> allowed s \<Longrightarrow>
   Storage_Get w s hostName pageName =
     (Inl (if hostName = [] then HostNameEmpty
           else if pageName = [] then PageNameEmpty else HostNotAllowed), s, w)"
  by (auto simp: Storage_Get_def)

lemma Storage_Get_hit:
  assumes "hostName \<noteq> []" "pageName \<noteq> []" "hostName \<in> allowed s"
    and "Cache_Get (cache s) hostName pageName = (obj, True)"
    and "clock w (ticks w) < ExpiryTime obj"
  shows "Storage_Get w s hostName pageName = (Inr obj, s, w\<lparr>ticks := Suc (ticks w)\<rparr>)"
  using assms by (simp add: Storage_Get_def time_Now_def time_After_def)

lemma Storage_Get_fetch:
  assumes "hostName \<noteq> []" "pageName \<noteq> []" "hostName \<in> allowed s"
    and "no_fresh_entry w s hostName pageName"
    and "w1 = after_test w s hostName pageName"
    and "url = hostName @ ''/'' @ pageName"
  shows "Storage_Get w s hostName pageName =
     (case remote w (length (requests w)) url of
        GetFailed \<Rightarrow> (Inl FailedToGetObject, s, w1\<lparr>requests := requests w @ [url]\<rparr>)
      | GetOK resp \<Rightarrow>
          (case Body resp of
             ReadFailed \<Rightarrow> (Inl FailedToReadObject, s, w1\<lparr>requests := requests w @ [url]\<rparr>)
           | ReadOK content \<Rightarrow>
               (let obj' = \<lparr>Etag = hex_EncodeToString (md5_Sum content),
                            ContentType = Header_Get (Header resp) ''Content-Type'',
                            Content = content,
                            UpdateTime = clock w (ticks w1),
                            ExpiryTime = clock w (Suc (ticks w1)) + 24 * Hour\<rparr>
                in (Inr obj', s\<lparr>cache := Cache_Put (cache s) hostName pageName obj'\<rparr>,
                    w1\<lparr>requests := requests w @ [url], ticks := Suc (Suc (ticks w1))\<rparr>))))"
  using assms
  by (cases "Cache_Get (cache s) hostName pageName")
     (auto simp: Storage_Get_def no_fresh_entry_def after_test_def time_Now_def time_After_def
        http_Get_def io_ReadAll_def time_Add_def Let_def split: get_result.splits read_result.splits)

lemma Storage_Get_test_world:
  "Storage_Get (test_world (GetOK (test_response code (ReadOK [0x68, 0x69])))) NewStorage
     ''https://paulgraham.com'' ''index.html'' =
   (Inr hi_Object,
    NewStorage\<lparr>cache := Cache_Put Map.empty ''https://paulgraham.com'' ''index.html'' hi_Object\<rparr>,
    (test_world (GetOK (test_response code (ReadOK [0x68, 0x69]))))
      \<lparr>ticks := 2, requests := [''https://paulgraham.com/index.html'']\<rparr>)"
  by (simp add: Storage_Get_def NewStorage_def Cache_Get_def test_world_def test_response_def
      time_Now_def time_After_def time_Add_def http_Get_def io_ReadAll_def Header_Get_def
      hi_hex hi_Object_def numeral_2_eq_2 Let_def)

lemma Storage_Get_ok_world:
  "Storage_Get ok_world NewStorage ''https://paulgraham.com'' ''index.html'' =
     (Inr hi_Object, hi_Storage,
      ok_world\<lparr>ticks := 2, requests := [''https://paulgraham.com/index.html'']\<rparr>)"
  by (simp add: ok_world_def hi_Storage_def Storage_Get_test_world)

lemma Storage_Get_clock:
  "Storage_Get w s hostName pageName = (r, s', w') \<Longrightarrow>
     clock w' = clock w \<and> ticks w \<le> ticks w'"
  by (auto simp: Storage_Get_def time_Now_def http_Get_def Let_def
      split: if_splits prod.splits get_result.splits read_result.splits)

lemma Storage_Get_error:
  "Storage_Get w s hostName pageName = (Inl e, s', w') \<Longrightarrow> s' = s"
  by (auto simp: Storage_Get_def time_Now_def http_Get_def Let_def
      split: if_splits prod.splits get_result.splits read_result.splits)

lemma Storage_Get_allowed:
  "Storage_Get w s hostName pageName = (r, s', w') \<Longrightarrow> allowed s' = allowed s"
  by (auto simp: Storage_Get_def time_Now_def http_Get_def Let_def
      split: if_splits prod.splits get_result.splits read_result.splits)

lemma Storage_Get_valid:
  assumes "Storage_Get w s hostName pageName = (Inr obj, s', w')"
  shows "hostName \<noteq> []" and "pageName \<noteq> []" and "hostName \<in> allowed s"
  using assms by (auto simp: Storage_Get_def split: if_splits)

lemma Storage_Get_cache:
  assumes g: "Storage_Get w s hostName pageName = (Inr obj, s', w')"
  shows "(s' = s \<and> Cache_Get (cache s) hostName pageName = (obj, True)) \<or>
         (s' = s\<lparr>cache := Cache_Put (cache s) hostName pageName obj\<rparr> \<and>
          no_fresh_entry w s hostName pageName)"
proof (cases "no_fresh_entry w s hostName pageName")
  case True
  from g Storage_Get_fetch [OF Storage_Get_valid [OF g] True refl refl]
  have "s' = s\<lparr>cache := Cache_Put (cache s) hostName pageName obj\<rparr>"
    by (auto simp: Let_def split: get_result.splits read_result.splits)
  with True show ?thesis
    by simp
next
  case False
  then obtain x where x: "Cache_Get (cache s) hostName pageName = (x, True)"
    "clock w (ticks w) < ExpiryTime x"
    by (auto simp: no_fresh_entry_def)
  from g Storage_Get_hit [OF Storage_Get_valid [OF g] x]
  show ?thesis
    using x by simp
qed

section \<open>The cache of a reachable storage\<close>

lemma Cache_Get_Put_cases:
  "Cache_Get (Cache_Put c hostName pageName obj) h p = (x, True) \<Longrightarrow>
     (h = hostName \<and> p = pageName \<and> x = obj) \<or> Cache_Get c h p = (x, True)"
  by (auto simp: Cache_Get_def Cache_Put_def split: option.splits if_splits)

lemma reachable_keys:
  "reachable w s \<Longrightarrow> Cache_Get (cache s) h p = (x, True) \<Longrightarrow>
     h \<noteq> [] \<and> p \<noteq> [] \<and> h \<in> allowed s"
proof (induction arbitrary: h p x rule: reachable.induct)
  case (reachable_init w)
  then show ?case
    by (simp add: NewStorage_def Cache_Get_def)
next
  case (reachable_Get w s hostName pageName r s' w')
  note al = Storage_Get_allowed [OF reachable_Get.hyps(2)]
  show ?case
  proof (cases r)
    case (Inl e)
    with reachable_Get.hyps(2) have "s' = s"
      by (simp add: Storage_Get_error)
    with reachable_Get.IH reachable_Get.prems show ?thesis
      by simp
  next
    case (Inr obj)
    with reachable_Get.hyps(2)
    have g: "Storage_Get w s hostName pageName = (Inr obj, s', w')"
      by simp
    from Storage_Get_cache [OF g]
    consider "s' = s" | "s' = s\<lparr>cache := Cache_Put (cache s) hostName pageName obj\<rparr>"
      by auto
    then show ?thesis
    proof cases
      case 1
      with reachable_Get.IH reachable_Get.prems show ?thesis
        by simp
    next
      case 2
      with reachable_Get.prems Cache_Get_Put_cases [of "cache s" hostName pageName obj h p x]
      have "(h = hostName \<and> p = pageName) \<or> Cache_Get (cache s) h p = (x, True)"
        by auto
      with reachable_Get.IH Storage_Get_valid [OF g] al show ?thesis
        by auto
    qed
  qed
qed

lemma stampedI:
  "Suc k < ticks w \<Longrightarrow> UpdateTime obj = clock w k \<Longrightarrow>
     ExpiryTime obj = time_Add (clock w (Suc k)) (24 * Hour) \<Longrightarrow> stamped w obj"
  unfolding stamped_def by (intro exI [of _ k]) simp

lemma Storage_Get_stamped:
  assumes g: "Storage_Get w s hostName pageName = (Inr obj, s', w')"
    and nf: "no_fresh_entry w s hostName pageName"
  shows "stamped w' obj"
proof -
  define k where "k = ticks (after_test w s hostName pageName)"
  from g Storage_Get_fetch [OF Storage_Get_valid [OF g] nf refl refl]
  have "Suc k < ticks w'" and "UpdateTime obj = clock w' k"
    and "ExpiryTime obj = time_Add (clock w' (Suc k)) (24 * Hour)"
    by (auto simp: k_def Let_def time_Add_def after_test_def
        split: get_result.splits read_result.splits)
  then show ?thesis
    by (rule stampedI)
qed

lemma stamped_later:
  assumes "stamped w obj" and "clock w' = clock w" and "ticks w \<le> ticks w'"
  shows "stamped w' obj"
proof -
  from assms(1) obtain k where "Suc k < ticks w" and "UpdateTime obj = clock w k"
    and "ExpiryTime obj = time_Add (clock w (Suc k)) (24 * Hour)"
    by (auto simp: stamped_def)
  with assms(2,3) have "k < ticks w' \<and> Suc k < ticks w' \<and> UpdateTime obj = clock w' k \<and>
      ExpiryTime obj = time_Add (clock w' (Suc k)) (24 * Hour)"
    by simp
  then show ?thesis
    unfolding stamped_def by blast
qed

lemma reachable_stamped:
  "reachable w s \<Longrightarrow> Cache_Get (cache s) h p = (x, True) \<Longrightarrow> stamped w x"
proof (induction arbitrary: h p x rule: reachable.induct)
  case (reachable_init w)
  then show ?case
    by (simp add: NewStorage_def Cache_Get_def)
next
  case (reachable_Get w s hostName pageName r s' w')
  note clk = Storage_Get_clock [OF reachable_Get.hyps(2)]
  show ?case
  proof (cases r)
    case (Inl e)
    with reachable_Get.hyps(2) have "s' = s"
      by (simp add: Storage_Get_error)
    with reachable_Get.IH reachable_Get.prems clk show ?thesis
      by (auto intro: stamped_later)
  next
    case (Inr obj)
    with reachable_Get.hyps(2)
    have g: "Storage_Get w s hostName pageName = (Inr obj, s', w')"
      by simp
    from Storage_Get_cache [OF g] Storage_Get_stamped [OF g]
    consider "s' = s"
      | "s' = s\<lparr>cache := Cache_Put (cache s) hostName pageName obj\<rparr>" "stamped w' obj"
      by auto
    then show ?thesis
    proof cases
      case 1
      with reachable_Get.IH reachable_Get.prems clk show ?thesis
        by (auto intro: stamped_later)
    next
      case 2
      with reachable_Get.prems Cache_Get_Put_cases [of "cache s" hostName pageName obj h p x]
      have "x = obj \<or> Cache_Get (cache s) h p = (x, True)"
        by auto
      with 2 reachable_Get.IH clk show ?thesis
        by (auto intro: stamped_later)
    qed
  qed
qed

section \<open>Splitting the URL\<close>

lemma HasPrefix_slash: "strings_HasPrefix (c # cs) ''/'' \<longleftrightarrow> c = CHR ''/''"
  by (simp add: strings_HasPrefix_def)

lemma strings_Index_slash:
  "strings_Index s ''/'' =
     (if CHR ''/'' \<in> set s then Some (length (takeWhile (\<lambda>c. c \<noteq> CHR ''/'') s)) else None)"
  by (induction s) (auto simp: HasPrefix_slash)

lemma strings_SplitN_slash:
  "strings_SplitN s ''/'' 2 =
     (if CHR ''/'' \<in> set s
      then [takeWhile (\<lambda>c. c \<noteq> CHR ''/'') s, tl (dropWhile (\<lambda>c. c \<noteq> CHR ''/'') s)]
      else [s])"
proof -
  let ?P = "\<lambda>c. c \<noteq> CHR ''/''"
  let ?m = "length (takeWhile ?P s)"
  have two: "strings_SplitN s ''/'' 2 =
      (case strings_Index s ''/'' of
         None \<Rightarrow> [s]
       | Some m \<Rightarrow> [take m s, drop (m + length ''/'') s])"
    unfolding numeral_2_eq_2 by (simp split: option.splits)
  have "take ?m s = takeWhile ?P s"
    by (rule takeWhile_eq_take [symmetric])
  moreover have "drop (?m + length ''/'') s = tl (dropWhile ?P s)"
    by (simp add: dropWhile_eq_drop drop_Suc tl_drop)
  ultimately show ?thesis
    unfolding two strings_Index_slash by simp
qed

lemma first_slash:
  "CHR ''/'' \<notin> set host \<Longrightarrow>
     takeWhile (\<lambda>c. c \<noteq> CHR ''/'') (host @ ''/'' @ path) = host \<and>
     tl (dropWhile (\<lambda>c. c \<noteq> CHR ''/'') (host @ ''/'' @ path)) = path"
  by (induction host) auto

lemma parse_url_first_slash:
  "parse_url url =
     (case strip_scheme url of
        (prefix, r) \<Rightarrow>
          let t = strings_TrimRight r ''/'' in
          if CHR ''/'' \<in> set t
          then Some (prefix @ takeWhile (\<lambda>c. c \<noteq> CHR ''/'') t,
                     tl (dropWhile (\<lambda>c. c \<noteq> CHR ''/'') t))
          else None)"
  by (simp add: parse_url_def strings_SplitN_slash Let_def split: prod.splits)

lemma strip_scheme_https: "strip_scheme (''https://'' @ r) = (''https://'', r)"
  by (simp add: strip_scheme_def strings_HasPrefix_def strings_TrimPrefix_def)

lemma strip_scheme_http: "strip_scheme (''http://'' @ r) = (''http://'', r)"
  by (simp add: strip_scheme_def strings_HasPrefix_def strings_TrimPrefix_def)

lemma strings_TrimRight_slashes:
  assumes "x = [] \<or> last x \<noteq> CHR ''/''"
  shows "strings_TrimRight (x @ replicate n CHR ''/'') ''/'' = x"
proof -
  have "dropWhile (\<lambda>c. c \<in> set ''/'') (replicate n CHR ''/'' @ rev x) =
        dropWhile (\<lambda>c. c \<in> set ''/'') (rev x)"
    by (simp add: dropWhile_append)
  also have "\<dots> = rev x"
    using assms by (cases "rev x") (auto simp: last_rev)
  finally show ?thesis
    by (simp add: strings_TrimRight_def)
qed

section \<open>Validation\<close>

text \<open>
  Claim C3. For every origin that is not in the allow-list, with a non-empty origin and a
  non-empty resource, \<^verbatim>\<open>Storage.Get\<close> fails with the error of kind \<open>OriginNotAllowed\<close>; the
  environment it returns is the one it was given, so no request was sent, and the storage
  it returns is the one it was given, so the cache is unmodified.
\<close>

theorem not_allowed_fails:
  "hostName \<noteq> [] \<Longrightarrow> pageName \<noteq> [] \<Longrightarrow> hostName \<notin> allowed s \<Longrightarrow>
   Storage_Get w s hostName pageName = (Inl HostNotAllowed, s, w) \<and>
   kind HostNotAllowed = OriginNotAllowed"
  by (simp add: Storage_Get_invalid)

theorem not_allowed_fails_witness:
  "Storage_Get (test_world (GetOK (test_response 200 (ReadOK [0x68, 0x69])))) NewStorage
     ''https://not-allowed.test'' ''x'' =
   (Inl HostNotAllowed, NewStorage, test_world (GetOK (test_response 200 (ReadOK [0x68, 0x69]))))
   \<and> requests (test_world (GetOK (test_response 200 (ReadOK [0x68, 0x69])))) = []
   \<and> cache NewStorage = Map.empty"
  using not_allowed_fails [of "''https://not-allowed.test''" "''x''" NewStorage
      "test_world (GetOK (test_response 200 (ReadOK [0x68, 0x69])))"]
  by (simp add: NewStorage_def test_world_def)

text \<open>
  Claim C4. The validation runs in a fixed order and the first failure wins: an empty
  origin fails with an error of kind \<open>InvalidInput\<close>, whatever the resource and the
  allow-list; otherwise an empty resource fails with an error of kind \<open>InvalidInput\<close>;
  otherwise an origin outside the allow-list fails with the error of kind
  \<open>OriginNotAllowed\<close>. In each case the environment is returned as it was given: no request
  was sent.
\<close>

theorem validation_order:
  "(hostName = [] \<longrightarrow> Storage_Get w s hostName pageName = (Inl HostNameEmpty, s, w)) \<and>
   (hostName \<noteq> [] \<and> pageName = [] \<longrightarrow>
      Storage_Get w s hostName pageName = (Inl PageNameEmpty, s, w)) \<and>
   (hostName \<noteq> [] \<and> pageName \<noteq> [] \<and> hostName \<notin> allowed s \<longrightarrow>
      Storage_Get w s hostName pageName = (Inl HostNotAllowed, s, w)) \<and>
   kind HostNameEmpty = InvalidInput \<and> kind PageNameEmpty = InvalidInput \<and>
   kind HostNotAllowed = OriginNotAllowed"
  by (simp add: Storage_Get_invalid)

theorem validation_order_witness:
  "Storage_Get (test_world GetFailed) NewStorage [] [] =
     (Inl HostNameEmpty, NewStorage, test_world GetFailed) \<and>
   Storage_Get (test_world GetFailed) NewStorage ''https://paulgraham.com'' [] =
     (Inl PageNameEmpty, NewStorage, test_world GetFailed) \<and>
   Storage_Get (test_world GetFailed) NewStorage ''https://example.test'' ''index.html'' =
     (Inl HostNotAllowed, NewStorage, test_world GetFailed)"
  using validation_order [of "[]" "test_world GetFailed" NewStorage "[]"]
    validation_order [of "''https://paulgraham.com''" "test_world GetFailed" NewStorage "[]"]
    validation_order [of "''https://example.test''" "test_world GetFailed" NewStorage
      "''index.html''"]
  by (simp add: NewStorage_def)

section \<open>The cache store\<close>

text \<open>
  Claim C9. \<^verbatim>\<open>Cache.Get\<close> and \<^verbatim>\<open>Cache.Put\<close> are total functions of the cache. \<^verbatim>\<open>Get\<close> on an
  absent key (the host has no entry, or the host's map has none for the page) returns the
  zero \<^verbatim>\<open>Object\<close> and \<open>False\<close>. After \<^verbatim>\<open>Put\<close> of an object under a key, \<^verbatim>\<open>Get\<close> of that key
  returns the object and \<open>True\<close>, and \<^verbatim>\<open>Get\<close> of every other key returns what it returned
  before the \<^verbatim>\<open>Put\<close>.
\<close>

theorem cache_get_put:
  "(c hostName = None \<or> (\<exists>host. c hostName = Some host \<and> host pageName = None) \<longrightarrow>
      Cache_Get c hostName pageName = (zero_Object, False)) \<and>
   Cache_Get (Cache_Put c hostName pageName obj) hostName pageName = (obj, True) \<and>
   (hostName' \<noteq> hostName \<or> pageName' \<noteq> pageName \<longrightarrow>
      Cache_Get (Cache_Put c hostName pageName obj) hostName' pageName' =
      Cache_Get c hostName' pageName')"
  by (auto simp: Cache_Get_def Cache_Put_def split: option.splits)

theorem cache_get_put_witness:
  "Cache_Get Map.empty ''https://paulgraham.com'' ''index.html'' = (zero_Object, False) \<and>
   Cache_Get (Cache_Put Map.empty ''https://paulgraham.com'' ''index.html'' expired_Object)
     ''https://paulgraham.com'' ''index.html'' = (expired_Object, True) \<and>
   Cache_Get (Cache_Put Map.empty ''https://paulgraham.com'' ''index.html'' expired_Object)
     ''https://paulgraham.com'' ''avg.html'' = (zero_Object, False)"
  using cache_get_put [of Map.empty "''https://paulgraham.com''" "''index.html''" expired_Object
      "''https://paulgraham.com''" "''avg.html''"]
    cache_get_put [of Map.empty "''https://paulgraham.com''" "''avg.html''"]
  by simp

section \<open>Cache hits\<close>

text \<open>
  Claim C2. For an allowed origin and non-empty origin and resource, when the cache has
  an entry for the key and the clock reads less than the entry's \<^verbatim>\<open>ExpiryTime\<close>,
  \<^verbatim>\<open>Storage.Get\<close> returns that entry; the storage is returned as it was and the list of
  requests is unchanged: only the clock was read. In a storage reached from \<^verbatim>\<open>NewStorage\<close>
  every key of the cache is allowed and non-empty, so there every fresh entry is returned
  in this way. Hence, when a first call has fetched and returned an object, a second call
  for the same key, made while the clock reads less than the object's \<^verbatim>\<open>UpdateTime\<close> plus
  24 hours, returns the same object (the same \<^verbatim>\<open>Content\<close> and the same \<^verbatim>\<open>Etag\<close>) and sends
  no request. The clock is the monotonic clock that \<^verbatim>\<open>time.Now\<close> reads and \<^verbatim>\<open>After\<close>
  compares: its readings never decrease.
\<close>

theorem fresh_hit_no_fetch:
  "(hostName \<noteq> [] \<and> pageName \<noteq> [] \<and> hostName \<in> allowed s \<and>
    Cache_Get (cache s) hostName pageName = (obj, True) \<and>
    clock w (ticks w) < ExpiryTime obj \<longrightarrow>
      Storage_Get w s hostName pageName = (Inr obj, s, w\<lparr>ticks := Suc (ticks w)\<rparr>) \<and>
      requests (w\<lparr>ticks := Suc (ticks w)\<rparr>) = requests w) \<and>
   (reachable w s \<and> Cache_Get (cache s) hostName pageName = (obj, True) \<and>
    clock w (ticks w) < ExpiryTime obj \<longrightarrow>
      Storage_Get w s hostName pageName = (Inr obj, s, w\<lparr>ticks := Suc (ticks w)\<rparr>)) \<and>
   (Storage_Get w s hostName pageName = (Inr obj', s', w') \<and> requests w' \<noteq> requests w \<and>
    (\<forall>k. clock w k \<le> clock w (Suc k)) \<and>
    clock w' (ticks w') < UpdateTime obj' + 24 * Hour \<longrightarrow>
      Storage_Get w' s' hostName pageName = (Inr obj', s', w'\<lparr>ticks := Suc (ticks w')\<rparr>) \<and>
      requests (w'\<lparr>ticks := Suc (ticks w')\<rparr>) = requests w')"
proof (intro conjI impI)
  assume "hostName \<noteq> [] \<and> pageName \<noteq> [] \<and> hostName \<in> allowed s \<and>
    Cache_Get (cache s) hostName pageName = (obj, True) \<and> clock w (ticks w) < ExpiryTime obj"
  then show "Storage_Get w s hostName pageName = (Inr obj, s, w\<lparr>ticks := Suc (ticks w)\<rparr>)"
    by (simp add: Storage_Get_hit)
  show "requests (w\<lparr>ticks := Suc (ticks w)\<rparr>) = requests w"
    by simp
next
  assume h: "reachable w s \<and> Cache_Get (cache s) hostName pageName = (obj, True) \<and>
    clock w (ticks w) < ExpiryTime obj"
  then have "hostName \<noteq> [] \<and> pageName \<noteq> [] \<and> hostName \<in> allowed s"
    by (auto dest: reachable_keys)
  with h show "Storage_Get w s hostName pageName = (Inr obj, s, w\<lparr>ticks := Suc (ticks w)\<rparr>)"
    by (simp add: Storage_Get_hit)
next
  assume h: "Storage_Get w s hostName pageName = (Inr obj', s', w') \<and>
    requests w' \<noteq> requests w \<and> (\<forall>k. clock w k \<le> clock w (Suc k)) \<and>
    clock w' (ticks w') < UpdateTime obj' + 24 * Hour"
  then have valid: "hostName \<noteq> []" "pageName \<noteq> []" "hostName \<in> allowed s"
    by (auto dest: Storage_Get_valid)
  have nf: "no_fresh_entry w s hostName pageName"
  proof (rule ccontr)
    assume "\<not> no_fresh_entry w s hostName pageName"
    then obtain x where "Cache_Get (cache s) hostName pageName = (x, True)"
      and "clock w (ticks w) < ExpiryTime x"
      by (auto simp: no_fresh_entry_def)
    from Storage_Get_hit [OF valid this] h show False
      by simp
  qed
  define t where "t = ticks (after_test w s hostName pageName)"
  from h Storage_Get_fetch [OF valid nf refl refl]
  have stamp: "UpdateTime obj' = clock w t" "ExpiryTime obj' = clock w (Suc t) + 24 * Hour"
    and stored: "Cache_Get (cache s') hostName pageName = (obj', True)" "allowed s' = allowed s"
    and clk: "clock w' = clock w"
    by (auto simp: t_def Let_def Cache_Get_def Cache_Put_def after_test_def
        split: get_result.splits read_result.splits option.splits)
  have "clock w t \<le> clock w (Suc t)"
    using h by simp
  moreover have "clock w' (ticks w') < clock w t + 24 * Hour"
    using h stamp by simp
  ultimately have "clock w' (ticks w') < ExpiryTime obj'"
    using stamp by simp
  with valid stored
  show "Storage_Get w' s' hostName pageName = (Inr obj', s', w'\<lparr>ticks := Suc (ticks w')\<rparr>)"
    by (simp add: Storage_Get_hit)
  show "requests (w'\<lparr>ticks := Suc (ticks w')\<rparr>) = requests w'"
    by simp
qed

theorem fresh_hit_no_fetch_witness:
  "Storage_Get (ok_world\<lparr>ticks := 2, requests := [''https://paulgraham.com/index.html'']\<rparr>)
     hi_Storage ''https://paulgraham.com'' ''index.html'' =
   (Inr hi_Object, hi_Storage,
    ok_world\<lparr>ticks := 3, requests := [''https://paulgraham.com/index.html'']\<rparr>)"
proof -
  let ?w1 = "ok_world\<lparr>ticks := 2, requests := [''https://paulgraham.com/index.html'']\<rparr>"
  let ?hit = "Storage_Get ?w1 hi_Storage ''https://paulgraham.com'' ''index.html'' =
      (Inr hi_Object, hi_Storage, ?w1\<lparr>ticks := Suc (ticks ?w1)\<rparr>)"
  note hit = fresh_hit_no_fetch [where hostName = "''https://paulgraham.com''"
      and pageName = "''index.html''" and s = hi_Storage and w = ?w1 and obj = hi_Object]
  have mono: "\<forall>k. clock ok_world k \<le> clock ok_world (Suc k)"
    by (simp add: ok_world_def test_world_def)
  have within: "clock ?w1 (ticks ?w1) < UpdateTime hi_Object + 24 * Hour"
    by (simp add: ok_world_def test_world_def hi_Object_def Hour_def)
  have fetched: "requests ?w1 \<noteq> requests ok_world"
    by (simp add: ok_world_def test_world_def)
  have two_calls: ?hit
    using fresh_hit_no_fetch [where hostName = "''https://paulgraham.com''"
        and pageName = "''index.html''" and s = NewStorage and w = ok_world
        and obj' = hi_Object and s' = hi_Storage and w' = ?w1]
      Storage_Get_ok_world mono within fetched
    by blast
  have allowed: "''https://paulgraham.com'' \<in> allowed hi_Storage"
    by (simp add: hi_Storage_def NewStorage_def)
  have cached: "Cache_Get (cache hi_Storage) ''https://paulgraham.com'' ''index.html'' =
      (hi_Object, True)"
    by (simp add: hi_Storage_def Cache_Get_def Cache_Put_def)
  have fresh: "clock ?w1 (ticks ?w1) < ExpiryTime hi_Object"
    by (simp add: ok_world_def test_world_def hi_Object_def Hour_def)
  have reached: "reachable ?w1 hi_Storage"
    using reachable_Get [OF reachable_init Storage_Get_ok_world] .
  have by_validation: ?hit
    using hit allowed cached fresh by simp
  have by_reachability: ?hit
    using hit reached cached fresh by blast
  from two_calls by_validation by_reachability show ?thesis
    by (simp add: numeral_3_eq_3 numeral_2_eq_2)
qed

section \<open>Failed fetches\<close>

text \<open>
  Claim C5. When a call reaches the fetch (allowed origin, non-empty origin and resource,
  no fresh entry) and the fetch fails, by a transport error of \<^verbatim>\<open>http.Get\<close> or by a failure
  of \<^verbatim>\<open>io.ReadAll\<close> on the body, \<^verbatim>\<open>Storage.Get\<close> returns an error of kind \<open>FetchFailed\<close> and
  the storage it was given: the cache is exactly as before, and an entry of the key that
  had expired is still there.
\<close>

theorem fetch_failure_keeps_cache:
  assumes "hostName \<noteq> []" and "pageName \<noteq> []" and "hostName \<in> allowed s"
    and "no_fresh_entry w s hostName pageName"
    and "remote w (length (requests w)) (hostName @ ''/'' @ pageName) = GetFailed \<or>
         (\<exists>resp. remote w (length (requests w)) (hostName @ ''/'' @ pageName) = GetOK resp \<and>
                 io_ReadAll resp = ReadFailed)"
  shows "\<exists>e w'. Storage_Get w s hostName pageName = (Inl e, s, w') \<and> kind e = FetchFailed"
  using assms(5) Storage_Get_fetch [OF assms(1-4) refl refl]
  by (auto simp: io_ReadAll_def)

theorem fetch_failure_keeps_cache_witness:
  "fst (Storage_Get (test_world GetFailed) stale_Storage ''https://paulgraham.com'' ''index.html'')
     = Inl FailedToGetObject \<and>
   fst (snd (Storage_Get (test_world GetFailed) stale_Storage
               ''https://paulgraham.com'' ''index.html'')) = stale_Storage \<and>
   Cache_Get (cache stale_Storage) ''https://paulgraham.com'' ''index.html''
     = (expired_Object, True)"
proof -
  have "no_fresh_entry (test_world GetFailed) stale_Storage
          ''https://paulgraham.com'' ''index.html''"
    by (simp add: no_fresh_entry_def stale_Storage_def Cache_Get_def Cache_Put_def
        test_world_def expired_Object_def)
  moreover have "''https://paulgraham.com'' \<in> allowed stale_Storage"
    by (simp add: stale_Storage_def NewStorage_def)
  moreover have "remote (test_world GetFailed) (length (requests (test_world GetFailed)))
                   (''https://paulgraham.com'' @ ''/'' @ ''index.html'') = GetFailed"
    by (simp add: test_world_def)
  ultimately obtain e w' where
    "Storage_Get (test_world GetFailed) stale_Storage ''https://paulgraham.com'' ''index.html''
       = (Inl e, stale_Storage, w')"
    using fetch_failure_keeps_cache [of "''https://paulgraham.com''" "''index.html''"
        stale_Storage "test_world GetFailed"]
    by auto
  then show ?thesis
    by (simp add: Storage_Get_def stale_Storage_def NewStorage_def Cache_Get_def Cache_Put_def
        test_world_def expired_Object_def time_Now_def time_After_def http_Get_def)
qed

text \<open>
  Claim C1, as stated, fails: \<^verbatim>\<open>http.Get\<close> returns a response with status 404 as a
  response, not as an error, and \<^verbatim>\<open>Storage.Get\<close> never reads the status code. The body of
  the 404 response is returned and cached.
\<close>

theorem non_2xx_is_cached_counterexample:
  "''https://paulgraham.com'' \<in> allowed NewStorage \<and>
   no_fresh_entry (test_world (GetOK (test_response 404 (ReadOK [0x68, 0x69])))) NewStorage
     ''https://paulgraham.com'' ''index.html'' \<and>
   StatusCode (test_response 404 (ReadOK [0x68, 0x69])) = 404 \<and>
   fst (Storage_Get (test_world (GetOK (test_response 404 (ReadOK [0x68, 0x69])))) NewStorage
          ''https://paulgraham.com'' ''index.html'') = Inr hi_Object \<and>
   Cache_Get
     (cache (fst (snd (Storage_Get (test_world (GetOK (test_response 404 (ReadOK [0x68, 0x69]))))
                         NewStorage ''https://paulgraham.com'' ''index.html''))))
     ''https://paulgraham.com'' ''index.html'' = (hi_Object, True)"
  by (simp add: Storage_Get_test_world)
     (simp add: NewStorage_def no_fresh_entry_def Cache_Get_def Cache_Put_def test_response_def)

text \<open>
  Claim C1, amended. For every call that reaches the fetch (allowed origin, non-empty
  origin and resource, no fresh entry), \<^verbatim>\<open>Storage.Get\<close> fails exactly when \<^verbatim>\<open>http.Get\<close>
  returns a transport error or reading the body fails; it then fails with an error of
  kind \<open>FetchFailed\<close> and nothing is cached. Every response whose body can be read, whatever
  its status code, is cached and returned.
\<close>

theorem fetch_fails_iff:
  assumes "hostName \<noteq> []" and "pageName \<noteq> []" and "hostName \<in> allowed s"
    and "no_fresh_entry w s hostName pageName"
    and "res = remote w (length (requests w)) (hostName @ ''/'' @ pageName)"
    and "Storage_Get w s hostName pageName = (r, s', w')"
  shows "(isl r \<longleftrightarrow> res = GetFailed \<or> (\<exists>resp. res = GetOK resp \<and> io_ReadAll resp = ReadFailed))
         \<and> (isl r \<longrightarrow> kind (projl r) = FetchFailed \<and> s' = s)
         \<and> (\<forall>resp content. res = GetOK resp \<and> io_ReadAll resp = ReadOK content \<longrightarrow>
               Cache_Get (cache s') hostName pageName = (projr r, True) \<and>
               Content (projr r) = content)"
  using assms(5,6) Storage_Get_fetch [OF assms(1-4) refl refl]
  by (auto simp: io_ReadAll_def Let_def Cache_Get_def Cache_Put_def
      split: get_result.splits read_result.splits option.splits)

theorem fetch_fails_iff_witness:
  "\<not> isl (fst (Storage_Get (test_world (GetOK (test_response 404 (ReadOK [0x68, 0x69]))))
                 NewStorage ''https://paulgraham.com'' ''index.html'')) \<and>
   isl (fst (Storage_Get (test_world GetFailed) NewStorage
               ''https://paulgraham.com'' ''index.html''))"
proof -
  have a: "''https://paulgraham.com'' \<in> allowed NewStorage"
    by (simp add: NewStorage_def)
  have b: "no_fresh_entry w NewStorage ''https://paulgraham.com'' ''index.html''" for w
    by (simp add: no_fresh_entry_def NewStorage_def Cache_Get_def)
  have c: "r = remote (test_world r) (length (requests (test_world r)))
             (''https://paulgraham.com'' @ ''/'' @ ''index.html'')" for r
    by (simp add: test_world_def)
  have th: "isl (fst (Storage_Get (test_world r) NewStorage
                        ''https://paulgraham.com'' ''index.html'')) \<longleftrightarrow>
            r = GetFailed \<or> (\<exists>resp. r = GetOK resp \<and> io_ReadAll resp = ReadFailed)" for r
    using fetch_fails_iff [of "''https://paulgraham.com''" "''index.html''" NewStorage
        "test_world r" r
        "fst (Storage_Get (test_world r) NewStorage ''https://paulgraham.com'' ''index.html'')"
        "fst (snd (Storage_Get (test_world r) NewStorage
                     ''https://paulgraham.com'' ''index.html''))"
        "snd (snd (Storage_Get (test_world r) NewStorage
                     ''https://paulgraham.com'' ''index.html''))", OF _ _ a b c]
    by simp
  show ?thesis
    by (simp add: th io_ReadAll_def test_response_def)
qed

section \<open>Expiry\<close>

text \<open>
  Claim C6, as stated, fails: \<^verbatim>\<open>Storage.Get\<close> reads the clock once for \<^verbatim>\<open>UpdateTime\<close> and
  once more for \<^verbatim>\<open>ExpiryTime\<close>. Where the two readings differ, \<^verbatim>\<open>ExpiryTime\<close> is not
  \<^verbatim>\<open>UpdateTime\<close> plus 24 hours.
\<close>

theorem expiry_counterexample:
  "fst (Storage_Get ok_world NewStorage ''https://paulgraham.com'' ''index.html'') = Inr hi_Object \<and>
   UpdateTime hi_Object = 0 \<and> ExpiryTime hi_Object = 1 + 24 * Hour \<and>
   ExpiryTime hi_Object \<noteq> UpdateTime hi_Object + 24 * Hour"
  by (simp add: Storage_Get_ok_world hi_Object_def)

text \<open>
  Claim C6, amended. For every object in the cache of a storage reached from
  \<^verbatim>\<open>NewStorage\<close> by calls of \<^verbatim>\<open>Storage.Get\<close>, and for every object such a call returns,
  \<^verbatim>\<open>UpdateTime\<close> is a clock reading and \<^verbatim>\<open>ExpiryTime\<close> is the next clock reading plus the
  fixed 24 hours. So \<^verbatim>\<open>ExpiryTime\<close> is at least \<^verbatim>\<open>UpdateTime\<close> plus 24 hours when the
  readings of the clock never decrease.
\<close>

theorem expiry_stamp:
  assumes "reachable w s"
  shows "(Cache_Get (cache s) hostName pageName = (obj, True) \<longrightarrow> stamped w obj) \<and>
         (Storage_Get w s hostName pageName = (Inr obj, s', w') \<longrightarrow> stamped w' obj) \<and>
         (stamped w obj \<and> (\<forall>k. clock w k \<le> clock w (Suc k)) \<longrightarrow>
            UpdateTime obj + 24 * Hour \<le> ExpiryTime obj)"
proof (intro conjI impI)
  assume "Cache_Get (cache s) hostName pageName = (obj, True)"
  with assms show "stamped w obj"
    by (rule reachable_stamped)
next
  assume g: "Storage_Get w s hostName pageName = (Inr obj, s', w')"
  from Storage_Get_cache [OF g] show "stamped w' obj"
  proof
    assume "s' = s \<and> Cache_Get (cache s) hostName pageName = (obj, True)"
    with assms have "stamped w obj"
      by (auto intro: reachable_stamped)
    with Storage_Get_clock [OF g] show ?thesis
      by (auto intro: stamped_later)
  next
    assume "s' = s\<lparr>cache := Cache_Put (cache s) hostName pageName obj\<rparr> \<and>
      no_fresh_entry w s hostName pageName"
    with g show ?thesis
      by (simp add: Storage_Get_stamped)
  qed
next
  assume "stamped w obj \<and> (\<forall>k. clock w k \<le> clock w (Suc k))"
  then show "UpdateTime obj + 24 * Hour \<le> ExpiryTime obj"
    by (auto simp: stamped_def time_Add_def)
qed

theorem expiry_stamp_witness:
  "stamped (ok_world\<lparr>ticks := 2, requests := [''https://paulgraham.com/index.html'']\<rparr>) hi_Object
   \<and> UpdateTime hi_Object + 24 * Hour \<le> ExpiryTime hi_Object"
proof -
  let ?w1 = "ok_world\<lparr>ticks := 2, requests := [''https://paulgraham.com/index.html'']\<rparr>"
  have r: "reachable ?w1 hi_Storage"
    using reachable_Get [OF reachable_init Storage_Get_ok_world] .
  have c: "Cache_Get (cache hi_Storage) ''https://paulgraham.com'' ''index.html'' =
      (hi_Object, True)"
    by (simp add: hi_Storage_def Cache_Get_def Cache_Put_def)
  have m: "\<forall>k. clock ?w1 k \<le> clock ?w1 (Suc k)"
    by (simp add: ok_world_def test_world_def)
  from expiry_stamp [OF r, of "''https://paulgraham.com''" "''index.html''" hi_Object] c m
  show ?thesis
    by blast
qed

section \<open>The content digest of a fetched object\<close>

text \<open>
  Claim C7. For every call of \<^verbatim>\<open>Storage.Get\<close> that sends a request and succeeds, the
  \<^verbatim>\<open>Etag\<close> of the returned object is the hexadecimal MD5 digest of exactly the returned
  \<^verbatim>\<open>Content\<close>. It depends on nothing else: two such calls, in any environments and for any
  keys, that return the same \<^verbatim>\<open>Content\<close> return the same \<^verbatim>\<open>Etag\<close>.
\<close>

theorem digest_of_body:
  "(Storage_Get w s hostName pageName = (Inr obj, s', w') \<and> requests w' \<noteq> requests w \<longrightarrow>
      Etag obj = hex_EncodeToString (md5_Sum (Content obj))) \<and>
   (Storage_Get w s hostName pageName = (Inr obj, s', w') \<and> requests w' \<noteq> requests w \<and>
    Storage_Get v t hostName2 pageName2 = (Inr obj2, t', v') \<and> requests v' \<noteq> requests v \<and>
    Content obj = Content obj2 \<longrightarrow> Etag obj = Etag obj2)"
proof -
  have *: "Etag obj = hex_EncodeToString (md5_Sum (Content obj))"
    if "Storage_Get w s hostName pageName = (Inr obj, s', w')" and "requests w' \<noteq> requests w"
    for w s hostName pageName obj s' w'
    using that
    by (auto simp: Storage_Get_def time_Now_def http_Get_def Let_def
        split: if_splits prod.splits get_result.splits read_result.splits)
  show ?thesis
    using * [of w s hostName pageName obj s' w'] * [of v t hostName2 pageName2 obj2 t' v']
    by auto
qed

theorem digest_of_body_witness:
  "Etag hi_Object = hex_EncodeToString (md5_Sum [0x68, 0x69]) \<and>
   Etag hi_Object = ''49f68a5c8493ec2c0bf489821c21fc3b''"
proof -
  let ?w1 = "ok_world\<lparr>ticks := 2, requests := [''https://paulgraham.com/index.html'']\<rparr>"
  have "requests ?w1 \<noteq> requests ok_world"
    by (simp add: ok_world_def test_world_def)
  with Storage_Get_ok_world
  have "Etag hi_Object = hex_EncodeToString (md5_Sum (Content hi_Object))"
    using digest_of_body [where w = ok_world and s = NewStorage
        and hostName = "''https://paulgraham.com''" and pageName = "''index.html''"
        and obj = hi_Object and s' = hi_Storage and w' = ?w1]
    by blast
  then show ?thesis
    by (simp add: hi_Object_def)
qed

section \<open>The URL parameter\<close>

text \<open>
  Claim C8, as stated, fails: the handler removes the trailing \<open>/\<close> characters of the
  remainder before it splits. For \<^verbatim>\<open>https://paulgraham.com/articles/\<close> the resource is
  \<^verbatim>\<open>articles\<close>, not the remainder-path \<^verbatim>\<open>articles/\<close>, and the URL requested from the origin
  has no trailing \<open>/\<close>.
\<close>

theorem parse_url_counterexample:
  "parse_url ''https://paulgraham.com/articles/'' = Some (''https://paulgraham.com'', ''articles'')
   \<and> spec_parse_url ''https://paulgraham.com/articles/'' =
       Some (''https://paulgraham.com'', ''articles/'')
   \<and> requests (snd (snd (handler (test_world GetFailed) NewStorage
                            ''https://paulgraham.com/articles/''))) =
       [''https://paulgraham.com/articles'']"
proof -
  have a: "parse_url ''https://paulgraham.com/articles/'' =
      Some (''https://paulgraham.com'', ''articles'')"
    by (simp add: parse_url_first_slash strip_scheme_def strings_HasPrefix_def
        strings_TrimPrefix_def strings_TrimRight_def)
  have b: "spec_parse_url ''https://paulgraham.com/articles/'' =
      Some (''https://paulgraham.com'', ''articles/'')"
    by (simp add: spec_parse_url_def strip_scheme_def strings_HasPrefix_def
        strings_TrimPrefix_def spec_split_def)
  have c: "requests (snd (snd (handler (test_world GetFailed) NewStorage
      ''https://paulgraham.com/articles/''))) = [''https://paulgraham.com/articles'']"
    by (simp add: handler_def a Storage_Get_def NewStorage_def Cache_Get_def test_world_def
        http_Get_def)
  from a b c show ?thesis
    by simp
qed

text \<open>
  Claim C8, amended. For every value of the parameter, the handler strips a leading
  \<^verbatim>\<open>https://\<close> or \<^verbatim>\<open>http://\<close> and records it as the scheme, and otherwise uses the prefix
  \<^verbatim>\<open>httpd://\<close>; it removes the trailing \<open>/\<close> characters of the remainder and splits what
  is left at the first \<open>/\<close> into host and remainder-path; the origin is the scheme
  followed by the host and the resource is the remainder-path. Where what is left has no
  \<open>/\<close>, the handler answers 404 Not Found. For a remainder with no trailing \<open>/\<close> this is
  the split of the claim as first stated.
\<close>

theorem parse_url_trims:
  "parse_url url =
     (case strip_scheme url of
        (scheme, r) \<Rightarrow>
          map_option (\<lambda>(host, path). (scheme @ host, path))
            (spec_split (strings_TrimRight r ''/''))) \<and>
   strip_scheme (''https://'' @ r) = (''https://'', r) \<and>
   strip_scheme (''http://'' @ r) = (''http://'', r) \<and>
   (\<not> strings_HasPrefix url ''https://'' \<and> \<not> strings_HasPrefix url ''http://'' \<longrightarrow>
      strip_scheme url = (''httpd://'', url)) \<and>
   (parse_url url = None \<longrightarrow> handler w s url = (NotFound, s, w)) \<and>
   (strings_TrimRight (snd (strip_scheme url)) ''/'' = snd (strip_scheme url) \<longrightarrow>
      parse_url url = spec_parse_url url)"
proof (intro conjI impI)
  show "parse_url url =
     (case strip_scheme url of
        (scheme, r) \<Rightarrow>
          map_option (\<lambda>(host, path). (scheme @ host, path))
            (spec_split (strings_TrimRight r ''/'')))"
    by (simp add: parse_url_first_slash spec_split_def Let_def split: prod.splits)
  show "strip_scheme (''https://'' @ r) = (''https://'', r)"
    by (rule strip_scheme_https)
  show "strip_scheme (''http://'' @ r) = (''http://'', r)"
    by (rule strip_scheme_http)
  show "strip_scheme url = (''httpd://'', url)"
    if "\<not> strings_HasPrefix url ''https://'' \<and> \<not> strings_HasPrefix url ''http://''"
    using that by (simp add: strip_scheme_def)
  show "handler w s url = (NotFound, s, w)" if "parse_url url = None"
    using that by (simp add: handler_def)
  show "parse_url url = spec_parse_url url"
    if "strings_TrimRight (snd (strip_scheme url)) ''/'' = snd (strip_scheme url)"
    using that
    by (cases "strip_scheme url")
      (simp add: parse_url_first_slash spec_parse_url_def spec_split_def Let_def)
qed

theorem parse_url_trims_witness:
  "parse_url ''paulgraham.com'' = None \<and>
   handler (test_world GetFailed) NewStorage ''paulgraham.com'' =
     (NotFound, NewStorage, test_world GetFailed) \<and>
   strip_scheme ''paulgraham.com/index.html'' = (''httpd://'', ''paulgraham.com/index.html'') \<and>
   parse_url ''paulgraham.com/index.html'' = spec_parse_url ''paulgraham.com/index.html''"
proof -
  note t = parse_url_trims [THEN conjunct2, THEN conjunct2, THEN conjunct2]
  have a: "parse_url ''paulgraham.com'' = None"
    by (simp add: parse_url_def strip_scheme_def strings_HasPrefix_def strings_TrimRight_def
        numeral_2_eq_2)
  have b: "\<not> strings_HasPrefix ''paulgraham.com/index.html'' ''https://'' \<and>
      \<not> strings_HasPrefix ''paulgraham.com/index.html'' ''http://''"
    by (simp add: strings_HasPrefix_def)
  have c: "strip_scheme ''paulgraham.com/index.html'' = (''httpd://'', ''paulgraham.com/index.html'')"
    using t [THEN conjunct1, of "''paulgraham.com/index.html''"] b by (rule mp)
  have d: "strings_TrimRight (snd (strip_scheme ''paulgraham.com/index.html'')) ''/'' =
      snd (strip_scheme ''paulgraham.com/index.html'')"
    by (simp add: c strings_TrimRight_def)
  from a c t [THEN conjunct2, THEN conjunct1, THEN mp, OF a]
    t [THEN conjunct2, THEN conjunct2, THEN mp, OF d]
  show ?thesis
    by simp
qed

text \<open>
  Claim C10. The handler removes all trailing \<open>/\<close> characters of the scheme-stripped
  parameter before it splits: for a host without \<open>/\<close> and a non-empty path that does not
  end in \<open>/\<close>, the remainders \<^verbatim>\<open>host/path\<close>, \<^verbatim>\<open>host/path/\<close> and \<^verbatim>\<open>host/path///\<close> (any number
  of trailing \<open>/\<close>) all give the resource \<^verbatim>\<open>path\<close>; a remainder that is the host followed
  by \<open>/\<close> characters only is malformed, and the handler answers 404 Not Found without
  calling \<^verbatim>\<open>Storage.Get\<close>.
\<close>

theorem trailing_slashes:
  assumes "CHR ''/'' \<notin> set host" and "path \<noteq> []" and "last path \<noteq> CHR ''/''"
  shows "(strip_scheme url = (scheme, host @ ''/'' @ path @ replicate n CHR ''/'') \<longrightarrow>
            parse_url url = Some (scheme @ host, path)) \<and>
         (strip_scheme url = (scheme, host @ replicate n CHR ''/'') \<longrightarrow>
            parse_url url = None \<and> handler w s url = (NotFound, s, w))"
proof (intro conjI impI)
  assume u: "strip_scheme url = (scheme, host @ ''/'' @ path @ replicate n CHR ''/'')"
  have "last (host @ ''/'' @ path) \<noteq> CHR ''/''"
    using assms by simp
  then have "strings_TrimRight ((host @ ''/'' @ path) @ replicate n CHR ''/'') ''/'' =
      host @ ''/'' @ path"
    by (intro strings_TrimRight_slashes) simp
  then have t: "strings_TrimRight (host @ ''/'' @ path @ replicate n CHR ''/'') ''/'' =
      host @ ''/'' @ path"
    by simp
  have "CHR ''/'' \<in> set (host @ ''/'' @ path)"
    by simp
  with u t first_slash [OF assms(1), of path]
  show "parse_url url = Some (scheme @ host, path)"
    by (simp only: parse_url_first_slash Let_def prod.case if_True)
next
  assume u: "strip_scheme url = (scheme, host @ replicate n CHR ''/'')"
  have "host = [] \<or> last host \<noteq> CHR ''/''"
    using assms(1) by (cases host rule: rev_cases) auto
  then have "strings_TrimRight (host @ replicate n CHR ''/'') ''/'' = host"
    by (rule strings_TrimRight_slashes)
  with u assms(1) show "parse_url url = None"
    by (simp add: parse_url_first_slash)
  then show "handler w s url = (NotFound, s, w)"
    by (simp add: handler_def)
qed

theorem trailing_slashes_witness:
  "parse_url ''https://paulgraham.com/index.html'' = Some (''https://paulgraham.com'', ''index.html'')
   \<and> parse_url ''https://paulgraham.com/index.html/'' =
       Some (''https://paulgraham.com'', ''index.html'')
   \<and> parse_url ''https://paulgraham.com/index.html///'' =
       Some (''https://paulgraham.com'', ''index.html'')
   \<and> handler (test_world GetFailed) NewStorage ''https://paulgraham.com/'' =
       (NotFound, NewStorage, test_world GetFailed)"
proof -
  have h: "CHR ''/'' \<notin> set ''paulgraham.com''" "''index.html'' \<noteq> []"
    "last ''index.html'' \<noteq> CHR ''/''"
    by simp_all
  note t = trailing_slashes [OF h, where scheme = "''https://''"]
  have s: "strip_scheme (''https://'' @ r) = (''https://'', r)" for r
    by (simp add: strip_scheme_def strings_HasPrefix_def strings_TrimPrefix_def)
  from t [of "''https://paulgraham.com/index.html''" 0]
    t [of "''https://paulgraham.com/index.html/''" 1]
    t [of "''https://paulgraham.com/index.html///''" 3]
    t [of "''https://paulgraham.com/''" 1 "test_world GetFailed" NewStorage]
    s [of "''paulgraham.com/index.html''"] s [of "''paulgraham.com/index.html/''"]
    s [of "''paulgraham.com/index.html///''"] s [of "''paulgraham.com/''"]
  show ?thesis
    by (simp add: numeral_3_eq_3)
qed

end
